theory Spec2Isabelle
  imports Complex_Main
begin

section \<open>Numbers and angles\<close>

text \<open>
  The game is written in JavaScript. Its numbers are modelled as \<^typ>\<open>real\<close> (positions,
  angles, clock samples in milliseconds, seconds of \<open>deltaTime\<close>) and as \<^typ>\<open>int\<close>
  (score, combo and the other counters, which only ever hold integers). Rounding of
  doubles, \<open>NaN\<close> and the infinities are outside the model.
\<close>

text \<open>
  The three normalisation loops of \<open>Player\<close>:
  \<^verbatim>\<open>while (a < b) a += Math.PI * 2;\<close>,
  \<^verbatim>\<open>while (a >= b) a -= Math.PI * 2;\<close> and
  \<^verbatim>\<open>while (a > b) a -= Math.PI * 2;\<close>.
\<close>

function while_lt_add :: "real \<Rightarrow> real \<Rightarrow> real" where
  "while_lt_add b a = (if a < b then while_lt_add b (a + pi * 2) else a)"
  by pat_completeness auto
termination
proof (relation "measure (\<lambda>(b, a). nat \<lceil>(b - a) / (pi * 2)\<rceil>)")
  show "wf (measure (\<lambda>(b, a). nat \<lceil>(b - a) / (pi * 2)\<rceil>))" by simp
next
  fix b a :: real
  assume lt: "a < b"
  have eq: "(b - (a + pi * 2)) / (pi * 2) = (b - a) / (pi * 2) - 1"
    by (simp add: field_simps)
  have pos: "0 < (b - a) / (pi * 2)" using lt by simp
  hence "0 < \<lceil>(b - a) / (pi * 2)\<rceil>" by simp
  thus "((b, a + pi * 2), (b, a)) \<in> measure (\<lambda>(b, a). nat \<lceil>(b - a) / (pi * 2)\<rceil>)"
    by (simp add: eq)
qed

function while_ge_sub :: "real \<Rightarrow> real \<Rightarrow> real" where
  "while_ge_sub b a = (if a \<ge> b then while_ge_sub b (a - pi * 2) else a)"
  by pat_completeness auto
termination
proof (relation "measure (\<lambda>(b, a). nat (\<lfloor>(a - b) / (pi * 2)\<rfloor> + 1))")
  show "wf (measure (\<lambda>(b, a). nat (\<lfloor>(a - b) / (pi * 2)\<rfloor> + 1)))" by simp
next
  fix b a :: real
  assume ge: "b \<le> a"
  have eq: "(a - pi * 2 - b) / (pi * 2) = (a - b) / (pi * 2) - 1"
    by (simp add: field_simps)
  have "0 \<le> (a - b) / (pi * 2)" using ge by simp
  hence "0 \<le> \<lfloor>(a - b) / (pi * 2)\<rfloor>" by simp
  thus "((b, a - pi * 2), (b, a)) \<in> measure (\<lambda>(b, a). nat (\<lfloor>(a - b) / (pi * 2)\<rfloor> + 1))"
    by (simp add: eq)
qed

function while_gt_sub :: "real \<Rightarrow> real \<Rightarrow> real" where
  "while_gt_sub b a = (if a > b then while_gt_sub b (a - pi * 2) else a)"
  by pat_completeness auto
termination
proof (relation "measure (\<lambda>(b, a). nat \<lceil>(a - b) / (pi * 2)\<rceil>)")
  show "wf (measure (\<lambda>(b, a). nat \<lceil>(a - b) / (pi * 2)\<rceil>))" by simp
next
  fix b a :: real
  assume gt: "b < a"
  have eq: "(a - pi * 2 - b) / (pi * 2) = (a - b) / (pi * 2) - 1"
    by (simp add: field_simps)
  have "0 < (a - b) / (pi * 2)" using gt by simp
  hence "0 < \<lceil>(a - b) / (pi * 2)\<rceil>" by simp
  thus "((b, a - pi * 2), (b, a)) \<in> measure (\<lambda>(b, a). nat \<lceil>(a - b) / (pi * 2)\<rceil>)"
    by (simp add: eq)
qed

declare while_lt_add.simps [simp del] while_ge_sub.simps [simp del] while_gt_sub.simps [simp del]


text \<open>
  \<open>Math.atan2(dy, dx)\<close> of the ECMAScript library (a built-in, not code of the
  repository): the angle in \<open>(-\<pi>, \<pi>]\<close> of the point \<open>(dx, dy)\<close>, by quadrant.
\<close>

definition atan2 :: "real \<Rightarrow> real \<Rightarrow> real" where
  "atan2 dy dx =
     (if dx > 0 then arctan (dy / dx)
      else if dx < 0 then (if dy \<ge> 0 then arctan (dy / dx) + pi else arctan (dy / dx) - pi)
      else if dy > 0 then pi / 2
      else if dy < 0 then - (pi / 2)
      else 0)"

section \<open>Player\<close>

text \<open>
  \<open>class Player\<close>. The fields carry the prefix \<open>pl_\<close>; \<open>color\<close> (used only by
  \<open>render\<close>) is left out. \<open>pl_gaps\<close> is the array of \<open>[gapStart, gapEnd]\<close> pairs.
\<close>

record player =
  pl_x :: real
  pl_y :: real
  pl_radius :: real
  pl_angle :: real
  pl_rotationSpeed :: real
  pl_maxRotationSpeed :: real
  pl_rotationAcceleration :: real
  pl_hitFlash :: real
  pl_gapCount :: nat
  pl_gapSize :: real
  pl_solidSize :: real
  pl_gaps :: "(real \<times> real) list"

text \<open>
  The constructor's loop \<^verbatim>\<open>for (let i = 0; i < this.gapCount; i++)\<close> pushes
  \<open>[gapStart, gapEnd]\<close> with \<open>gapStart = (Math.PI * 2 / gapCount) * i\<close> and
  \<open>gapEnd = gapStart + gapSize\<close>.
\<close>

definition make_gaps :: "nat \<Rightarrow> real \<Rightarrow> (real \<times> real) list" where
  "make_gaps gapCount gapSize =
     map (\<lambda>i. let gapStart = (pi * 2 / real gapCount) * real i;
                    gapEnd = gapStart + gapSize
                in (gapStart, gapEnd)) [0..<gapCount]"

definition Player :: "real \<Rightarrow> real \<Rightarrow> player" where
  "Player x y =
     \<lparr> pl_x = x, pl_y = y, pl_radius = 30, pl_angle = 0, pl_rotationSpeed = 0,
       pl_maxRotationSpeed = 5, pl_rotationAcceleration = 15, pl_hitFlash = 0,
       pl_gapCount = 4, pl_gapSize = pi / 4,
       pl_solidSize = (pi * 2 - (real 4 * (pi / 4))) / real 4,
       pl_gaps = make_gaps 4 (pi / 4) \<rparr>"

text \<open>
  The body of the \<open>for (const [gapStart, gapEnd] of this.gaps)\<close> loop of
  \<open>isSolidAtAngle\<close>: \<open>False\<close> (in a gap) at the first gap that holds the angle,
  \<open>True\<close> (solid) when the loop runs out.
\<close>

fun solid_in_gaps :: "real \<Rightarrow> (real \<times> real) list \<Rightarrow> bool" where
  "solid_in_gaps relativeAngle [] = True"
| "solid_in_gaps relativeAngle ((gapStart, gapEnd) # gs) =
     (if gapEnd > pi * 2 then
        (if relativeAngle \<ge> gapStart \<or> relativeAngle \<le> gapEnd - pi * 2 then False
         else solid_in_gaps relativeAngle gs)
      else
        (if relativeAngle \<ge> gapStart \<and> relativeAngle < gapEnd then False
         else solid_in_gaps relativeAngle gs))"

definition isSolidAtAngle :: "player \<Rightarrow> real \<Rightarrow> bool" where
  "isSolidAtAngle p worldAngle =
     (let relativeAngle = worldAngle - pl_angle p;
          relativeAngle = while_lt_add 0 relativeAngle;
          relativeAngle = while_ge_sub (pi * 2) relativeAngle
      in solid_in_gaps relativeAngle (pl_gaps p))"

text \<open>
  \<open>Player.update(deltaTime, inputManager)\<close>; \<open>touch\<close> is what
  \<open>inputManager.getPrimaryTouch()\<close> returns (\<open>None\<close> for \<open>null\<close>).
\<close>

definition Player_update :: "real \<Rightarrow> (real \<times> real) option \<Rightarrow> player \<Rightarrow> player" where
  "Player_update deltaTime touch p =
     (let rotationSpeed =
            (case touch of
               Some (tx, ty) \<Rightarrow>
                 (let dx = tx - pl_x p;
                      dy = ty - pl_y p;
                      targetAngle = atan2 dy dx;
                      angleDiff = targetAngle - pl_angle p;
                      angleDiff = while_gt_sub pi angleDiff;
                      angleDiff = while_lt_add (- pi) angleDiff;
                      rotationDirection = (if angleDiff > 0 then 1 else - 1)
                  in min (\<bar>angleDiff\<bar> * pl_rotationAcceleration p) (pl_maxRotationSpeed p)
                       * rotationDirection)
             | None \<Rightarrow>
                 (let rotationSpeed = pl_rotationSpeed p * 0.9
                  in if \<bar>rotationSpeed\<bar> < 0.1 then 0 else rotationSpeed));
          angle = pl_angle p + rotationSpeed * deltaTime;
          angle = while_gt_sub (pi * 2) angle;
          angle = while_lt_add 0 angle;
          hitFlash = (if pl_hitFlash p > 0 then pl_hitFlash p - deltaTime else pl_hitFlash p)
      in p\<lparr> pl_rotationSpeed := rotationSpeed, pl_angle := angle, pl_hitFlash := hitFlash \<rparr>)"


section \<open>Projectile and ProjectilePool\<close>

text \<open>
  \<open>class Projectile\<close>, fields prefixed \<open>pj_\<close> (\<open>color\<close> left out). \<open>reset\<close> assigns
  every field; \<open>now\<close> is the sample \<open>performance.now()\<close> returns in it.
\<close>

record projectile =
  pj_x :: real
  pj_y :: real
  pj_targetX :: real
  pj_targetY :: real
  pj_radius :: real
  pj_speed :: real
  pj_active :: bool
  pj_dodged :: bool
  pj_spawnTime :: real
  pj_vx :: real
  pj_vy :: real

definition reset :: "real \<Rightarrow> real \<Rightarrow> real \<Rightarrow> real \<Rightarrow> real \<Rightarrow> real \<Rightarrow> projectile" where
  "reset now x y targetX targetY speed =
     (let dx = targetX - x;
          dy = targetY - y;
          distance = sqrt (dx * dx + dy * dy)
      in \<lparr> pj_x = x, pj_y = y, pj_targetX = targetX, pj_targetY = targetY, pj_radius = 12,
           pj_speed = speed, pj_active = True, pj_dodged = False, pj_spawnTime = now,
           pj_vx = (if distance > 0 then (dx / distance) * speed else 0),
           pj_vy = (if distance > 0 then (dy / distance) * speed else 0) \<rparr>)"

text \<open>
  \<open>class ProjectilePool\<close>. Projectile objects are mutable and shared by reference between
  the pool's two arrays and the engine, so they live in an explicit store: \<open>heap\<close> maps a
  reference (a \<^typ>\<open>nat\<close>) to the object's fields, and \<open>allocated\<close> counts the
  \<open>new Projectile()\<close> calls made so far; the next one returns the reference
  \<open>allocated\<close>. Cells at or beyond \<open>allocated\<close> are not objects yet. \<open>pool\<close> is the
  free list and \<open>active\<close> the active list, both in array order.
\<close>

record projectilePool =
  heap :: "nat \<Rightarrow> projectile"
  allocated :: nat
  pool :: "nat list"
  active :: "nat list"
  initialSize :: nat

text \<open>\<open>new Projectile()\<close>: the constructor calls \<open>this.reset(0, 0, 0, 0, 0)\<close>.\<close>

definition new_Projectile :: "real \<Rightarrow> projectilePool \<Rightarrow> nat \<times> projectilePool" where
  "new_Projectile now s =
     (allocated s,
      s\<lparr> heap := (heap s)(allocated s := reset now 0 0 0 0 0), allocated := Suc (allocated s) \<rparr>)"

text \<open>
  \<open>initialize()\<close>: \<^verbatim>\<open>for (let i = 0; i < this.initialSize; i++) this.pool.push(new Projectile())\<close>;
  \<open>clock i\<close> is the clock sample the \<open>i\<close>-th constructor reads.
\<close>

definition initialize :: "(nat \<Rightarrow> real) \<Rightarrow> projectilePool \<Rightarrow> projectilePool" where
  "initialize clock s =
     fold (\<lambda>i s. let (projectile, s) = new_Projectile (clock i) s
                  in s\<lparr> pool := pool s @ [projectile] \<rparr>) [0..<initialSize s] s"

definition ProjectilePool :: "(nat \<Rightarrow> real) \<Rightarrow> nat \<Rightarrow> projectilePool" where
  "ProjectilePool clock n =
     initialize clock
       \<lparr> heap = (\<lambda>_. reset 0 0 0 0 0 0), allocated = 0, pool = [], active = [], initialSize = n \<rparr>"

text \<open>
  \<open>acquire(x, y, targetX, targetY, speed)\<close>: \<open>this.pool.pop()\<close> takes the last element of
  the free list. \<open>now\<close> is the clock sample read by \<open>reset\<close> (and by the constructor just
  before it, whose fields \<open>reset\<close> overwrites). The result is the projectile returned and
  the pool after the call.
\<close>

definition acquire ::
  "real \<Rightarrow> real \<Rightarrow> real \<Rightarrow> real \<Rightarrow> real \<Rightarrow> real \<Rightarrow> projectilePool \<Rightarrow> nat \<times> projectilePool" where
  "acquire now x y targetX targetY speed s =
     (let (projectile, s) =
            (if length (pool s) > 0 then (last (pool s), s\<lparr> pool := butlast (pool s) \<rparr>)
             else new_Projectile now s);
          s = s\<lparr> heap := (heap s)(projectile := reset now x y targetX targetY speed) \<rparr>;
          s = s\<lparr> active := active s @ [projectile] \<rparr>
      in (projectile, s))"

text \<open>\<open>Array.prototype.indexOf\<close> (\<open>-1\<close> when absent) and \<open>splice(index, 1)\<close>.\<close>

fun indexOf :: "'a list \<Rightarrow> 'a \<Rightarrow> int" where
  "indexOf [] v = - 1"
| "indexOf (x # xs) v =
     (if x = v then 0 else (let i = indexOf xs v in if i = - 1 then - 1 else i + 1))"

definition splice1 :: "nat \<Rightarrow> 'a list \<Rightarrow> 'a list" where
  "splice1 i xs = take i xs @ drop (Suc i) xs"

definition release :: "nat \<Rightarrow> projectilePool \<Rightarrow> projectilePool" where
  "release projectile s =
     (let index = indexOf (active s) projectile
      in if index \<noteq> - 1 then
           s\<lparr> active := splice1 (nat index) (active s),
              heap := (heap s)(projectile := (heap s projectile)\<lparr> pj_active := False \<rparr>),
              pool := pool s @ [projectile] \<rparr>
         else s)"

text \<open>\<open>clear()\<close>: \<^verbatim>\<open>while (this.active.length > 0) this.release(this.active[0])\<close>.\<close>

function clear :: "projectilePool \<Rightarrow> projectilePool" where
  "clear s = (case active s of [] \<Rightarrow> s | projectile # _ \<Rightarrow> clear (release projectile s))"
  by pat_completeness auto
termination
  by (relation "measure (\<lambda>s. length (active s))") (auto simp: release_def splice1_def)

declare clear.simps [simp del]

text \<open>
  What can happen to a pool between its construction and any later moment: calls of
  \<open>acquire\<close>, \<open>release\<close> and \<open>clear\<close>, and writes to the fields of projectile objects
  (which change the store, never the arrays). Nothing else assigns or mutates the two
  arrays: \<open>ProjectilePool.update\<close>, \<open>updateProjectiles\<close>, \<open>handleDodge\<close> and
  \<open>handleCollision\<close> write fields and call \<open>release\<close>, \<open>spawnProjectile\<close> calls
  \<open>acquire\<close>, \<open>startGame\<close> calls \<open>clear\<close>, and \<open>checkCollisions\<close> filters a copy.
\<close>

datatype pool_op =
  Acquire real real real real real real
  | Release nat
  | Clear
  | WriteFields "nat \<Rightarrow> projectile"

fun pool_step :: "pool_op \<Rightarrow> projectilePool \<Rightarrow> projectilePool" where
  "pool_step (Acquire now x y targetX targetY speed) s = snd (acquire now x y targetX targetY speed s)"
| "pool_step (Release projectile) s = release projectile s"
| "pool_step Clear s = clear s"
| "pool_step (WriteFields h) s = s\<lparr> heap := h \<rparr>"

definition pool_run :: "pool_op list \<Rightarrow> projectilePool \<Rightarrow> projectilePool" where
  "pool_run ops s = fold pool_step ops s"


section \<open>Physics: the collision grid\<close>

text \<open>
  \<open>class Physics\<close> keeps \<open>grid\<close>, a \<open>Map\<close> from the cell key \<open>`${cellX},${cellY}`\<close>
  (here the pair of cell indices) to the array of objects in that cell. An object in a
  cell is the player or a projectile.
\<close>

datatype obj = ThePlayer | AProjectile nat

record physics =
  gridSize :: real
  grid :: "(int \<times> int) \<rightharpoonup> obj list"

definition Physics :: physics where
  "Physics = \<lparr> gridSize = 200, grid = Map.empty \<rparr>"

text \<open>\<open>getBoundingBox(obj)\<close> for an object with a \<open>radius\<close>: \<open>(left, right, top, bottom)\<close>.\<close>

definition getBoundingBox :: "real \<Rightarrow> real \<Rightarrow> real \<Rightarrow> real \<times> real \<times> real \<times> real" where
  "getBoundingBox x y radius = (x - radius, x + radius, y - radius, y + radius)"

text \<open>
  The inner loop of \<open>getNearbyObjects\<close> over one cell's objects; the set \<open>seen\<close> of the
  source always holds exactly the elements of \<open>nearby\<close>.
\<close>

fun add_cell_objects :: "obj \<Rightarrow> obj list \<Rightarrow> obj list \<Rightarrow> obj list" where
  "add_cell_objects object [] nearby = nearby"
| "add_cell_objects object (obj # cellObjects) nearby =
     add_cell_objects object cellObjects
       (if obj \<noteq> object \<and> obj \<notin> set nearby then nearby @ [obj] else nearby)"

definition getNearbyObjects :: "physics \<Rightarrow> obj \<Rightarrow> real \<times> real \<times> real \<times> real \<Rightarrow> obj list" where
  "getNearbyObjects ph object bounds =
     (let (left, right, top, bottom) = bounds;
          minCellX = \<lfloor>left / gridSize ph\<rfloor>;
          maxCellX = \<lfloor>right / gridSize ph\<rfloor>;
          minCellY = \<lfloor>top / gridSize ph\<rfloor>;
          maxCellY = \<lfloor>bottom / gridSize ph\<rfloor>
      in fold (\<lambda>cellX nearby.
                 fold (\<lambda>cellY nearby.
                         add_cell_objects object
                           (case grid ph (cellX, cellY) of None \<Rightarrow> [] | Some cellObjects \<Rightarrow> cellObjects)
                           nearby)
                      [minCellY..maxCellY] nearby)
              [minCellX..maxCellX] [])"

section \<open>GameEngine\<close>

datatype GameState = MENU | PLAYING | PAUSED | GAME_OVER | LEVEL_UP | SETTINGS | HOW_TO_PLAY

text \<open>
  The fields of \<open>class GameEngine\<close> that the simulation reads and writes. Rendering,
  particles, floating scores, vibration, the spawn timer and persistence are left out.
\<close>

record game =
  currentState :: GameState
  lastTime :: real
  deltaTime :: real
  projectilePool :: projectilePool
  physics :: physics
  player :: "player option"
  score :: int
  combo :: int
  comboMultiplier :: int
  bestComboThisGame :: int
  projectilesDodgedThisGame :: int
  highScore :: int
  gameCount :: int
  sessionBest :: int
  achievements :: "string list"
  difficulty :: string

definition GAME_WIDTH :: real where "GAME_WIDTH = 800"
definition GAME_HEIGHT :: real where "GAME_HEIGHT = 1280"

text \<open>
  The constructor; \<open>now\<close> and \<open>clock\<close> are the clock samples it and the pool's
  constructor read, the last four arguments what \<open>DataManager\<close>, \<open>loadAchievements\<close> and
  \<open>loadGameSettings\<close> load from storage.
\<close>

definition GameEngine :: "real \<Rightarrow> (nat \<Rightarrow> real) \<Rightarrow> int \<Rightarrow> int \<Rightarrow> string list \<Rightarrow> string \<Rightarrow> game" where
  "GameEngine now clock loadedHighScore loadedGameCount loadedAchievements loadedDifficulty =
     \<lparr> currentState = MENU, lastTime = now, deltaTime = 0,
       projectilePool = ProjectilePool clock 50, physics = Physics, player = None,
       score = 0, combo = 0, comboMultiplier = 1, bestComboThisGame = 0,
       projectilesDodgedThisGame = 0, highScore = loadedHighScore, gameCount = loadedGameCount,
       sessionBest = 0, achievements = loadedAchievements, difficulty = loadedDifficulty \<rparr>"

text \<open>
  \<open>gameLoop(currentTime)\<close>. \<open>upd\<close> stands for \<open>this.update\<close>, the state-dependent
  update that receives \<open>this.deltaTime\<close>; the calls after it (render, input reset,
  \<open>requestAnimationFrame\<close>) do not touch the modelled fields.
\<close>

definition gameLoop :: "(real \<Rightarrow> game \<Rightarrow> game) \<Rightarrow> real \<Rightarrow> game \<Rightarrow> game" where
  "gameLoop upd currentTime g =
     (let g = g\<lparr> deltaTime := (currentTime - lastTime g) / 1000 \<rparr>;
          g = g\<lparr> lastTime := currentTime \<rparr>;
          g = g\<lparr> deltaTime := min (deltaTime g) 0.033 \<rparr>
      in upd (deltaTime g) g)"

definition startGame :: "game \<Rightarrow> game" where
  "startGame g =
     g\<lparr> currentState := PLAYING, score := 0, combo := 0, comboMultiplier := 1,
        bestComboThisGame := 0, projectilesDodgedThisGame := 0,
        projectilePool := clear (projectilePool g),
        player := Some (Player (GAME_WIDTH / 2) (GAME_HEIGHT / 2)) \<rparr>"

subsection \<open>Scoring\<close>

text \<open>JavaScript's \<open>a || b\<close> on numbers: \<open>b\<close> when \<open>a\<close> is \<open>0\<close>.\<close>

definition js_or :: "real \<Rightarrow> real \<Rightarrow> real" where
  "js_or a b = (if a = 0 then b else a)"

definition difficultyBonuses :: "(string \<times> real) list" where
  "difficultyBonuses = [(''easy'', 1.0), (''medium'', 1.1), (''hard'', 1.2), (''extreme'', 1.3)]"

text \<open>\<open>difficultyBonuses[this.difficulty] || 1.0\<close>\<close>

definition difficultyBonus :: "string \<Rightarrow> real" where
  "difficultyBonus d = (case map_of difficultyBonuses d of None \<Rightarrow> 1.0 | Some b \<Rightarrow> js_or b 1.0)"

definition updateComboMultiplier :: "game \<Rightarrow> game" where
  "updateComboMultiplier g =
     (let g = g\<lparr> comboMultiplier := 1 + combo g div 10 \<rparr>
      in g\<lparr> comboMultiplier := min (comboMultiplier g) 5 \<rparr>)"

definition hasAchievement :: "string \<Rightarrow> game \<Rightarrow> bool" where
  "hasAchievement ident g = (ident \<in> set (achievements g))"

definition unlockAchievement :: "string \<Rightarrow> game \<Rightarrow> game" where
  "unlockAchievement ident g =
     (if \<not> hasAchievement ident g then g\<lparr> achievements := achievements g @ [ident] \<rparr> else g)"

definition checkAchievements :: "game \<Rightarrow> game" where
  "checkAchievements g =
     (let g = (if score g \<ge> 1000 \<and> \<not> hasAchievement ''score1000'' g
               then unlockAchievement ''score1000'' g else g)
      in if combo g \<ge> 50 \<and> \<not> hasAchievement ''combo50'' g
         then unlockAchievement ''combo50'' g else g)"

definition addScore :: "real \<Rightarrow> game \<Rightarrow> game" where
  "addScore basePoints g =
     (let bonus = difficultyBonus (difficulty g);
          points = \<lfloor>basePoints\<rfloor>;
          finalPoints = \<lfloor>real_of_int points * real_of_int (comboMultiplier g) * bonus\<rfloor>;
          g = g\<lparr> score := score g + finalPoints \<rparr>;
          g = (if score g > sessionBest g then g\<lparr> sessionBest := score g \<rparr> else g);
          g = (if combo g > bestComboThisGame g then g\<lparr> bestComboThisGame := combo g \<rparr> else g)
      in checkAchievements g)"

subsection \<open>Collision handling\<close>

text \<open>
  \<open>handleDodge(projectile)\<close>: the early return on \<open>projectile.dodged\<close>, then the flags,
  the combo, the multiplier, the score and the release.
\<close>

definition handleDodge :: "nat \<Rightarrow> game \<Rightarrow> game" where
  "handleDodge projectile g =
     (if pj_dodged (heap (projectilePool g) projectile) then g
      else
        (let pp = projectilePool g;
             g = g\<lparr> projectilePool :=
                      pp\<lparr> heap := (heap pp)(projectile :=
                                  (heap pp projectile)\<lparr> pj_dodged := True, pj_active := False \<rparr>) \<rparr> \<rparr>;
             g = g\<lparr> combo := combo g + 1 \<rparr>;
             g = updateComboMultiplier g;
             g = g\<lparr> projectilesDodgedThisGame := projectilesDodgedThisGame g + 1 \<rparr>;
             basePoints = 10;
             g = addScore basePoints g
         in g\<lparr> projectilePool := release projectile (projectilePool g) \<rparr>))"

definition validateScore :: "int \<Rightarrow> bool" where
  "validateScore sc = (if sc > 1000000 then False else if sc < 0 then False else True)"

definition gameOver :: "game \<Rightarrow> game" where
  "gameOver g =
     (let g = g\<lparr> currentState := GAME_OVER \<rparr>;
          g = g\<lparr> gameCount := gameCount g + 1 \<rparr>;
          g = (if validateScore (score g) \<and> score g > highScore g
               then g\<lparr> highScore := score g \<rparr> else g)
      in if gameCount g = 1 then unlockAchievement ''firstPlay'' g else g)"

definition triggerHitFlash :: "player \<Rightarrow> player" where
  "triggerHitFlash p = p\<lparr> pl_hitFlash := 0.2 \<rparr>"

definition handleCollision :: "nat \<Rightarrow> game \<Rightarrow> game" where
  "handleCollision projectile g =
     (let g = g\<lparr> player := map_option triggerHitFlash (player g) \<rparr>;
          g = g\<lparr> combo := 0 \<rparr>;
          g = g\<lparr> comboMultiplier := 1 \<rparr>;
          g = g\<lparr> projectilePool := release projectile (projectilePool g) \<rparr>
      in gameOver g)"

text \<open>
  What one iteration of the loop of \<open>checkCollisions\<close> decides for a projectile, from the
  clock sample \<open>now\<close> it reads, the player and the projectile's fields: \<open>Skipped\<close> is a
  \<open>continue\<close> or a projectile out of range, \<open>Solid\<close> the branch that calls
  \<open>handleCollision\<close> and breaks, \<open>Gap\<close> the branch that calls \<open>handleDodge\<close>.
\<close>

datatype classification = Skipped | Solid | Gap

definition classify :: "real \<Rightarrow> player \<Rightarrow> projectile \<Rightarrow> classification" where
  "classify now pl projectile =
     (if \<not> pj_active projectile then Skipped
      else
        (let timeSinceSpawn = now - js_or (pj_spawnTime projectile) 0
         in if timeSinceSpawn < 200 then Skipped
            else
              (let dx = pj_x projectile - pl_x pl;
                   dy = pj_y projectile - pl_y pl;
                   distance = sqrt (dx * dx + dy * dy);
                   circleRadius = pl_radius pl;
                   projectileRadius = pj_radius projectile;
                   collisionRadius = circleRadius + projectileRadius
               in if distance \<le> collisionRadius then
                    (let projectileAngle = atan2 dy dx;
                         isSolid = isSolidAtAngle pl projectileAngle
                     in if isSolid then Solid else Gap)
                  else Skipped)))"

text \<open>
  The handler calls of one scan, in order. The loop
  \<open>for (const projectile of projectilesToCheck)\<close>: \<open>now i\<close> is the clock sample read in
  the iteration at position \<open>i\<close> of the array, \<open>pl\<close> the object \<open>this.player\<close> refers to
  (no iteration that continues the loop assigns or mutates it). The result pairs the
  handler calls made with the engine after the loop.
\<close>

datatype handler_call = SolidHit nat | Dodge nat

fun scan :: "(nat \<Rightarrow> real) \<Rightarrow> player \<Rightarrow> nat \<Rightarrow> nat list \<Rightarrow> game \<Rightarrow> handler_call list \<times> game" where
  "scan now pl i [] g = ([], g)"
| "scan now pl i (projectile # rest) g =
     (case classify (now i) pl (heap (projectilePool g) projectile) of
        Skipped \<Rightarrow> scan now pl (Suc i) rest g
      | Solid \<Rightarrow> ([SolidHit projectile], handleCollision projectile g)
      | Gap \<Rightarrow>
          (let (calls, g') = scan now pl (Suc i) rest (handleDodge projectile g)
           in (Dodge projectile # calls, g')))"

text \<open>
  The array \<open>projectilesToCheck\<close>: the active projectiles themselves when there are at
  most ten, otherwise what \<open>getNearbyObjects(this.player)\<close> finds in the grid, filtered by
  \<open>p !== this.player && p.active\<close> (the player object has no field \<open>active\<close>).
\<close>

definition projectilesToCheck :: "player \<Rightarrow> game \<Rightarrow> nat list" where
  "projectilesToCheck pl g =
     (let activeProjectiles =
            filter (\<lambda>p. pj_active (heap (projectilePool g) p)) (active (projectilePool g))
      in if length activeProjectiles > 10 then
           concat (map (\<lambda>p. case p of
                               ThePlayer \<Rightarrow> []
                             | AProjectile r \<Rightarrow> (if pj_active (heap (projectilePool g) r) then [r] else []))
                       (getNearbyObjects (physics g) ThePlayer
                          (getBoundingBox (pl_x pl) (pl_y pl) (pl_radius pl))))
         else activeProjectiles)"

definition checkCollisions :: "(nat \<Rightarrow> real) \<Rightarrow> game \<Rightarrow> handler_call list \<times> game" where
  "checkCollisions now g =
     (case player g of
        None \<Rightarrow> ([], g)
      | Some pl \<Rightarrow> scan now pl 0 (projectilesToCheck pl g) g)"

section \<open>Vocabulary of the properties\<close>

text \<open>
  Every created projectile (the references below \<open>allocated\<close>) is in exactly one of the two
  arrays, exactly once, and the arrays hold nothing else.
\<close>

definition pool_inv :: "projectilePool \<Rightarrow> bool" where
  "pool_inv s = (distinct (pool s @ active s) \<and> set (pool s @ active s) = {..<allocated s})"

text \<open>A run of \<open>acquire\<close> calls, one per argument tuple \<open>(now, x, y, targetX, targetY, speed)\<close>.\<close>

definition acquire_ops :: "(real \<times> real \<times> real \<times> real \<times> real \<times> real) list \<Rightarrow> pool_op list" where
  "acquire_ops args = map (\<lambda>(now, x, y, targetX, targetY, speed). Acquire now x y targetX targetY speed) args"

text \<open>
  The array scanned, each projectile paired with its position: \<open>positions k rs\<close> pairs the
  elements of \<open>rs\<close> with \<open>k\<close>, \<open>k + 1\<close>, ...
\<close>

definition positions :: "nat \<Rightarrow> nat list \<Rightarrow> (nat \<times> nat) list" where
  "positions k rs = zip [k..<k + length rs] rs"

text \<open>
  The handler calls a scan owes, given what each position is classified as: a dodge for
  every gap before the first solid position, in order, then the hit for the first solid
  position if there is one, and nothing after it.
\<close>

definition handled :: "((nat \<times> nat) \<Rightarrow> classification) \<Rightarrow> (nat \<times> nat) list \<Rightarrow> handler_call list" where
  "handled cls ps =
     map (\<lambda>(i, r). Dodge r) (filter (\<lambda>p. cls p = Gap) (takeWhile (\<lambda>p. cls p \<noteq> Solid) ps))
     @ map (\<lambda>(i, r). SolidHit r) (take 1 (dropWhile (\<lambda>p. cls p \<noteq> Solid) ps))"

text \<open>Running a recorded handler call on the engine.\<close>

fun run_call :: "handler_call \<Rightarrow> game \<Rightarrow> game" where
  "run_call (SolidHit projectile) g = handleCollision projectile g"
| "run_call (Dodge projectile) g = handleDodge projectile g"

text \<open>
  An example session: a game started on medium difficulty in which \<open>n\<close> projectiles have
  been acquired (at clock sample \<open>0\<close>), all at \<open>(430, 640)\<close>, 30 pixels to the right of
  the rotor's centre \<open>(400, 640)\<close> and so inside the collision radius \<open>30 + 12\<close>.
\<close>

definition crowded :: "nat \<Rightarrow> game" where
  "crowded n =
     (let g = startGame (GameEngine 0 (\<lambda>_. 0) 0 0 [] ''medium'')
      in g\<lparr> projectilePool :=
               pool_run (replicate n (Acquire 0 430 640 400 640 200)) (projectilePool g) \<rparr>)"

section \<open>Properties of the angle loops\<close>

lemma while_lt_add_range: "b \<le> a \<Longrightarrow> while_lt_add b a = a"
  by (subst while_lt_add.simps) simp

lemma while_lt_add_ge: "b \<le> while_lt_add b a"
  by (induction b a rule: while_lt_add.induct) (subst while_lt_add.simps, simp)

lemma while_lt_add_lt: "a < b + pi * 2 \<Longrightarrow> while_lt_add b a < b + pi * 2"
  by (induction b a rule: while_lt_add.induct) (subst while_lt_add.simps, simp)


lemma while_lt_add_once: "a < b \<Longrightarrow> b \<le> a + pi * 2 \<Longrightarrow> while_lt_add b a = a + pi * 2"
  by (subst while_lt_add.simps) (simp add: while_lt_add_range)




lemma while_ge_sub_range: "a < b \<Longrightarrow> while_ge_sub b a = a"
  by (subst while_ge_sub.simps) simp

lemma while_gt_sub_le: "while_gt_sub b a \<le> b"
  by (induction b a rule: while_gt_sub.induct) (subst while_gt_sub.simps, simp)

lemma while_gt_sub_gt: "b - pi * 2 < a \<Longrightarrow> b - pi * 2 < while_gt_sub b a"
  by (induction b a rule: while_gt_sub.induct) (subst while_gt_sub.simps, simp)

lemma while_gt_sub_range: "a \<le> b \<Longrightarrow> while_gt_sub b a = a"
  by (subst while_gt_sub.simps) simp





section \<open>The gap test\<close>

lemma player_gaps: "pl_gaps (Player x y) = [(0, pi / 4), (pi / 2, pi / 2 + pi / 4), (pi, pi + pi / 4), (3 * pi / 2, 3 * pi / 2 + pi / 4)]"
  by (simp add: Player_def make_gaps_def upt_rec Let_def)

lemma solid_in_player_gaps:
  "solid_in_gaps r (pl_gaps (Player x y)) =
     (\<not> (0 \<le> r \<and> r < pi / 4 \<or> pi / 2 \<le> r \<and> r < 3 * pi / 4 \<or> pi \<le> r \<and> r < 5 * pi / 4
         \<or> 3 * pi / 2 \<le> r \<and> r < 7 * pi / 4))"
  using pi_gt_zero by (auto simp add: player_gaps)



text \<open>
  C2, as stated: with the rotor at angle \<open>0\<close>, the world angle \<open>\<pi>/8\<close> would be solid.
  It is not: \<open>\<pi>/8\<close> lies in the first gap \<open>[0, \<pi>/4)\<close>, and \<open>isSolidAtAngle\<close> returns
  false for the player the engine constructs at the centre \<open>(400, 640)\<close>.
\<close>

theorem scenario_A_counterexample: "\<not> isSolidAtAngle (Player 400 640) (pi / 8)"
proof -
  have a: "pl_angle (Player 400 640) = 0" by (simp add: Player_def)
  have r: "while_ge_sub (pi * 2) (while_lt_add 0 (pi / 8)) = pi / 8"
    using pi_gt_zero by (simp add: while_lt_add_range while_ge_sub_range)
  show ?thesis
    unfolding isSolidAtAngle_def Let_def a using pi_gt_zero
    by (simp add: r solid_in_player_gaps)
qed

lemma isSolidAtAngle_eighth_is_gap: "isSolidAtAngle (Player x y) (pi / 8) = False"
proof -
  have a: "pl_angle (Player x y) = 0" by (simp add: Player_def)
  have r: "while_ge_sub (pi * 2) (while_lt_add 0 (pi / 8)) = pi / 8"
    using pi_gt_zero by (simp add: while_lt_add_range while_ge_sub_range)
  show ?thesis
    unfolding isSolidAtAngle_def Let_def a using pi_gt_zero
    by (simp add: r solid_in_player_gaps)
qed

lemma atan2_polar:
  assumes "0 < d" and "- (pi / 2) < a" and "a < pi / 2"
  shows "atan2 (d * sin a) (d * cos a) = a"
proof -
  have c: "0 < cos a" using assms by (simp add: cos_gt_zero_pi)
  hence pos: "0 < d * cos a" using assms by simp
  have "d * sin a / (d * cos a) = tan a" using assms by (simp add: tan_def)
  thus ?thesis using pos assms by (simp add: atan2_def arctan_tan)
qed

lemma polar_distance:
  assumes "0 \<le> d"
  shows "sqrt (d * cos a * (d * cos a) + d * sin a * (d * sin a)) = d"
proof -
  have "d * cos a * (d * cos a) + d * sin a * (d * sin a) = d * d * (cos a * cos a + sin a * sin a)"
    by algebra
  also have "\<dots> = d * d" by (simp only: sin_cos_squared_add3 mult_1_right)
  finally show ?thesis using assms by simp
qed

text \<open>
  C2, amended: with the rotor at angle \<open>0\<close> and the constructed gap pattern, a projectile
  arriving at world angle \<open>\<pi>/8\<close> is classified as passing through a gap:
  \<open>isSolidAtAngle(\<pi>/8)\<close> returns false wherever the player stands, and a projectile
  past its grace period that has just reached the collision radius (42 pixels from the
  centre) in that direction takes the branch of the scan that calls the dodge handler.
\<close>

theorem scenario_A_gap:
  "isSolidAtAngle (Player x y) (pi / 8) = False
   \<and> classify 1000 (Player x y) (reset 0 (x + 42 * cos (pi / 8)) (y + 42 * sin (pi / 8)) x y 200) = Gap"
proof
  show s: "isSolidAtAngle (Player x y) (pi / 8) = False" by (rule isSolidAtAngle_eighth_is_gap)
  have p: "pl_x (Player x y) = x" "pl_y (Player x y) = y" "pl_radius (Player x y) = 30"
    by (simp_all add: Player_def)
  have a: "atan2 (42 * sin (pi / 8)) (42 * cos (pi / 8)) = pi / 8"
    by (rule atan2_polar) (use pi_gt_zero in simp_all)
  have d: "sqrt (42 * cos (pi / 8) * (42 * cos (pi / 8)) + 42 * sin (pi / 8) * (42 * sin (pi / 8))) = 42"
    by (rule polar_distance) simp
  have f: "pj_x (reset 0 (x + 42 * cos (pi / 8)) (y + 42 * sin (pi / 8)) x y 200) - x = 42 * cos (pi / 8)"
    "pj_y (reset 0 (x + 42 * cos (pi / 8)) (y + 42 * sin (pi / 8)) x y 200) - y = 42 * sin (pi / 8)"
    "pj_active (reset 0 (x + 42 * cos (pi / 8)) (y + 42 * sin (pi / 8)) x y 200)"
    "pj_spawnTime (reset 0 (x + 42 * cos (pi / 8)) (y + 42 * sin (pi / 8)) x y 200) = 0"
    "pj_radius (reset 0 (x + 42 * cos (pi / 8)) (y + 42 * sin (pi / 8)) x y 200) = 12"
    by (simp_all add: reset_def Let_def)
  show "classify 1000 (Player x y) (reset 0 (x + 42 * cos (pi / 8)) (y + 42 * sin (pi / 8)) x y 200) = Gap"
    unfolding classify_def Let_def p f a d using s by (simp add: js_or_def f)
qed

section \<open>Rotation\<close>

lemma Player_update_touch:
  assumes "atan2 (ty - pl_y p) (tx - pl_x p) = t"
    and "while_lt_add (- pi) (while_gt_sub pi (t - pl_angle p)) = d"
    and "min (\<bar>d\<bar> * pl_rotationAcceleration p) (pl_maxRotationSpeed p) * (if d > 0 then 1 else - 1) = v"
    and "while_lt_add 0 (while_gt_sub (pi * 2) (pl_angle p + v * dt)) = a'"
  shows "pl_angle (Player_update dt (Some (tx, ty)) p) = a'"
  by (simp only: Player_update_def Let_def option.case prod.case assms) simp

lemma first_tick_fields:
  "pl_x (Player_update dt touch p) = pl_x p"
  "pl_y (Player_update dt touch p) = pl_y p"
  "pl_rotationAcceleration (Player_update dt touch p) = pl_rotationAcceleration p"
  "pl_maxRotationSpeed (Player_update dt touch p) = pl_maxRotationSpeed p"
  by (simp_all add: Player_update_def Let_def)

lemma first_tick: "pl_angle (Player_update 0.02 (Some (400, 540)) (Player 400 640)) = pi * 2 - 0.1"
proof (rule Player_update_touch)
  show "atan2 (540 - pl_y (Player 400 640)) (400 - pl_x (Player 400 640)) = - (pi / 2)"
    by (simp add: Player_def atan2_def)
  have d1: "while_gt_sub pi (- (pi / 2)) = - (pi / 2)"
    by (rule while_gt_sub_range) (use pi_gt_zero in linarith)
  have d2: "while_lt_add (- pi) (- (pi / 2)) = - (pi / 2)"
    by (rule while_lt_add_range) (use pi_gt_zero in linarith)
  show "while_lt_add (- pi) (while_gt_sub pi (- (pi / 2) - pl_angle (Player 400 640))) = - (pi / 2)"
    by (simp add: Player_def d1 d2)
  show "min (\<bar>- (pi / 2)\<bar> * pl_rotationAcceleration (Player 400 640)) (pl_maxRotationSpeed (Player 400 640))
          * (if - (pi / 2) > 0 then 1 else - 1) = - 5"
    using pi_ge_two by (simp add: Player_def)
  have n1: "while_gt_sub (pi * 2) (- 0.1) = - 0.1"
    by (rule while_gt_sub_range) (use pi_gt_zero in linarith)
  have n2: "while_lt_add 0 (- 0.1) = - 0.1 + pi * 2"
    by (rule while_lt_add_once) (use pi_ge_two in simp_all)
  have e: "pl_angle (Player 400 640) + - 5 * 0.02 = - 0.1" by (simp add: Player_def)
  show "while_lt_add 0 (while_gt_sub (pi * 2) (pl_angle (Player 400 640) + - 5 * 0.02)) = pi * 2 - 0.1"
    unfolding e n1 n2 by simp
qed

lemma second_tick:
  assumes "pl_x p = 400" "pl_y p = 640" "pl_angle p = pi * 2 - 0.1"
    "pl_rotationAcceleration p = 15" "pl_maxRotationSpeed p = 5"
  shows "pl_angle (Player_update 0.02 (Some (400, 740)) p) = pi * 2"
proof (rule Player_update_touch)
  show "atan2 (740 - pl_y p) (400 - pl_x p) = pi / 2"
    by (simp add: assms atan2_def)
  have d1: "while_gt_sub pi (pi / 2 - (pi * 2 - 0.1)) = pi / 2 - (pi * 2 - 0.1)"
    by (rule while_gt_sub_range) (use pi_ge_two in linarith)
  have d2: "while_lt_add (- pi) (pi / 2 - (pi * 2 - 0.1)) = pi / 2 - (pi * 2 - 0.1) + pi * 2"
    by (rule while_lt_add_once) (use pi_ge_two in linarith)+
  show "while_lt_add (- pi) (while_gt_sub pi (pi / 2 - pl_angle p)) = pi / 2 + 0.1"
    unfolding assms d1 d2 by simp
  show "min (\<bar>pi / 2 + 0.1\<bar> * pl_rotationAcceleration p) (pl_maxRotationSpeed p)
          * (if pi / 2 + 0.1 > 0 then 1 else - 1) = 5"
    using pi_ge_two by (simp add: assms)
  have e: "pl_angle p + 5 * 0.02 = pi * 2" by (simp add: assms)
  have n1: "while_gt_sub (pi * 2) (pi * 2) = pi * 2"
    by (rule while_gt_sub_range) simp
  have n2: "while_lt_add 0 (pi * 2) = pi * 2"
    by (rule while_lt_add_range) (use pi_gt_zero in linarith)
  show "while_lt_add 0 (while_gt_sub (pi * 2) (pl_angle p + 5 * 0.02)) = pi * 2"
    unfolding e n1 n2 by simp
qed

text \<open>
  C9, as stated: after every rotation update the angle would lie in \<open>[0, 2\<pi>)\<close>. Two
  ticks of 20 ms from the constructed player, the first with the touch straight above
  the centre and the second with the touch straight below it, end with the angle equal
  to \<open>2\<pi>\<close>: the loop \<^verbatim>\<open>while (this.angle > Math.PI * 2)\<close> leaves \<open>2\<pi>\<close> itself alone.
\<close>

theorem Player_update_half_open_counterexample:
  "\<not> (0 \<le> pl_angle (Player_update 0.02 (Some (400, 740)) (Player_update 0.02 (Some (400, 540)) (Player 400 640)))
     \<and> pl_angle (Player_update 0.02 (Some (400, 740)) (Player_update 0.02 (Some (400, 540)) (Player 400 640))) < pi * 2)"
proof -
  have "pl_angle (Player_update 0.02 (Some (400, 740)) (Player_update 0.02 (Some (400, 540)) (Player 400 640))) = pi * 2"
    by (rule second_tick) (simp_all only: first_tick_fields first_tick, simp_all add: Player_def)
  thus ?thesis by simp
qed

text \<open>
  C9, amended: after every rotation update, from any state, with or without a touch and
  for any \<open>deltaTime\<close>, the rotor's angle lies in the closed interval \<open>[0, 2\<pi>]\<close>.
\<close>

theorem Player_update_angle_closed_range:
  "0 \<le> pl_angle (Player_update dt touch p) \<and> pl_angle (Player_update dt touch p) \<le> pi * 2"
proof -
  define rs where "rs = pl_rotationSpeed (Player_update dt touch p)"
  have ang: "pl_angle (Player_update dt touch p)
      = while_lt_add 0 (while_gt_sub (pi * 2) (pl_angle p + rs * dt))"
    unfolding rs_def by (simp add: Player_update_def Let_def)
  let ?w = "while_gt_sub (pi * 2) (pl_angle p + rs * dt)"
  have le: "?w \<le> pi * 2" by (rule while_gt_sub_le)
  have "0 \<le> while_lt_add 0 ?w" by (rule while_lt_add_ge)
  moreover have "while_lt_add 0 ?w \<le> pi * 2"
  proof (cases "?w < 0")
    case True
    hence "?w < 0 + pi * 2" using pi_gt_zero by linarith
    from while_lt_add_lt [OF this] show ?thesis by simp
  next
    case False
    thus ?thesis using le by (simp add: while_lt_add_range)
  qed
  ultimately show ?thesis by (simp add: ang)
qed

section \<open>The frame clock\<close>

text \<open>
  C8. Whatever the state-dependent update is, \<open>gameLoop\<close> hands it the difference between
  the current clock sample and the previous one (\<open>lastTime\<close>), in seconds, clamped to
  \<open>0.033\<close>, after storing that value in \<open>deltaTime\<close> and the sample in \<open>lastTime\<close>; the
  value never exceeds \<open>0.033\<close>, and a sample 500 ms after the previous one gives exactly
  \<open>0.033\<close>.
\<close>

theorem gameLoop_clamp:
  "gameLoop upd currentTime g
     = upd (min ((currentTime - lastTime g) / 1000) 0.033)
         (g\<lparr> lastTime := currentTime, deltaTime := min ((currentTime - lastTime g) / 1000) 0.033 \<rparr>)
   \<and> min ((currentTime - lastTime g) / 1000) 0.033 \<le> 0.033
   \<and> gameLoop upd (lastTime g + 500) g
     = upd 0.033 (g\<lparr> lastTime := lastTime g + 500, deltaTime := 0.033 \<rparr>)"
proof (intro conjI)
  show "gameLoop upd currentTime g
     = upd (min ((currentTime - lastTime g) / 1000) 0.033)
         (g\<lparr> lastTime := currentTime, deltaTime := min ((currentTime - lastTime g) / 1000) 0.033 \<rparr>)"
    by (simp add: gameLoop_def Let_def)
  show "min ((currentTime - lastTime g) / 1000) 0.033 \<le> (0.033::real)"
    by (rule min.cobounded2)
  show "gameLoop upd (lastTime g + 500) g
     = upd 0.033 (g\<lparr> lastTime := lastTime g + 500, deltaTime := 0.033 \<rparr>)"
    by (simp add: gameLoop_def Let_def)
qed

section \<open>Scoring\<close>

lemma indexOf_absent: "(indexOf xs v = - 1) = (v \<notin> set xs)"
proof (induction xs)
  case Nil
  show ?case by simp
next
  case (Cons x xs)
  have nn: "indexOf xs v \<ge> - 1"  for xs :: "'a list"
    by (induction xs) (auto simp: Let_def)
  show ?case using Cons nn [of xs] by (auto simp: Let_def)
qed

lemma indexOf_ge: "- 1 \<le> indexOf xs v"
  by (induction xs) (auto simp: Let_def)

lemma splice1_indexOf: "v \<in> set xs \<Longrightarrow> splice1 (nat (indexOf xs v)) xs = remove1 v xs"
proof (induction xs)
  case Nil
  thus ?case by simp
next
  case (Cons x xs)
  show ?case
  proof (cases "x = v")
    case True
    thus ?thesis by (simp add: splice1_def)
  next
    case False
    with Cons.prems have in_xs: "v \<in> set xs" by simp
    hence ne: "indexOf xs v \<noteq> - 1" by (simp add: indexOf_absent)
    with indexOf_ge [of xs v] have nonneg: "0 \<le> indexOf xs v" by linarith
    have "nat (indexOf xs v + 1) = Suc (nat (indexOf xs v))" using nonneg by simp
    thus ?thesis using False ne Cons.IH [OF in_xs] by (simp add: splice1_def Let_def)
  qed
qed

lemma release_eq:
  "release r s =
     (if r \<in> set (active s)
      then s\<lparr> active := remove1 r (active s),
              heap := (heap s)(r := (heap s r)\<lparr> pj_active := False \<rparr>),
              pool := pool s @ [r] \<rparr>
      else s)"
  by (simp add: release_def Let_def indexOf_absent splice1_indexOf)

lemma release_dodged: "pj_dodged (heap (release r s) q) = pj_dodged (heap s q)"
  by (simp add: release_eq)

lemma unlockAchievement_fields:
  "score (unlockAchievement a g) = score g"
  "combo (unlockAchievement a g) = combo g"
  "comboMultiplier (unlockAchievement a g) = comboMultiplier g"
  "difficulty (unlockAchievement a g) = difficulty g"
  "projectilePool (unlockAchievement a g) = projectilePool g"
  "player (unlockAchievement a g) = player g"
  "physics (unlockAchievement a g) = physics g"
  by (simp_all add: unlockAchievement_def)

lemma checkAchievements_fields:
  "score (checkAchievements g) = score g"
  "combo (checkAchievements g) = combo g"
  "comboMultiplier (checkAchievements g) = comboMultiplier g"
  "difficulty (checkAchievements g) = difficulty g"
  "projectilePool (checkAchievements g) = projectilePool g"
  "player (checkAchievements g) = player g"
  "physics (checkAchievements g) = physics g"
  by (simp_all add: checkAchievements_def Let_def unlockAchievement_fields)

lemma addScore_fields:
  "score (addScore b g) = score g + \<lfloor>real_of_int \<lfloor>b\<rfloor> * real_of_int (comboMultiplier g) * difficultyBonus (difficulty g)\<rfloor>"
  "combo (addScore b g) = combo g"
  "comboMultiplier (addScore b g) = comboMultiplier g"
  "difficulty (addScore b g) = difficulty g"
  "projectilePool (addScore b g) = projectilePool g"
  "player (addScore b g) = player g"
  "physics (addScore b g) = physics g"
  by (simp_all add: addScore_def Let_def checkAchievements_fields)

lemma updateComboMultiplier_fields:
  "comboMultiplier (updateComboMultiplier g) = min (1 + combo g div 10) 5"
  "score (updateComboMultiplier g) = score g"
  "combo (updateComboMultiplier g) = combo g"
  "difficulty (updateComboMultiplier g) = difficulty g"
  "projectilePool (updateComboMultiplier g) = projectilePool g"
  "player (updateComboMultiplier g) = player g"
  "physics (updateComboMultiplier g) = physics g"
  by (simp_all add: updateComboMultiplier_def Let_def)

lemma handleDodge_dodged_id: "pj_dodged (heap (projectilePool g) r) \<Longrightarrow> handleDodge r g = g"
  by (simp add: handleDodge_def)

lemma handleDodge_fresh:
  assumes "\<not> pj_dodged (heap (projectilePool g) r)"
  shows "combo (handleDodge r g) = combo g + 1"
    and "comboMultiplier (handleDodge r g) = min (1 + (combo g + 1) div 10) 5"
    and "score (handleDodge r g) = score g
           + \<lfloor>10 * real_of_int (min (1 + (combo g + 1) div 10) 5) * difficultyBonus (difficulty g)\<rfloor>"
  using assms
  by (simp_all add: handleDodge_def Let_def addScore_fields updateComboMultiplier_fields)

lemma handleDodge_frame:
  "difficulty (handleDodge r g) = difficulty g"
  "player (handleDodge r g) = player g"
  "physics (handleDodge r g) = physics g"
  by (simp_all add: handleDodge_def Let_def addScore_fields updateComboMultiplier_fields)

lemma handleDodge_heap_other:
  "q \<noteq> r \<Longrightarrow> heap (projectilePool (handleDodge r g)) q = heap (projectilePool g) q"
  by (simp add: handleDodge_def Let_def addScore_fields updateComboMultiplier_fields release_eq)

lemma handleDodge_spawnTime:
  "pj_spawnTime (heap (projectilePool (handleDodge r g)) q) = pj_spawnTime (heap (projectilePool g) q)"
  by (simp add: handleDodge_def Let_def addScore_fields updateComboMultiplier_fields release_eq)

lemma floor_div10: "\<lfloor>real_of_int c / 10\<rfloor> = c div 10"
  using floor_divide_of_int_eq [of c 10, where ?'a = real] by simp

lemma dodges_effect:
  assumes "distinct rs" and "\<forall>p \<in> set rs. \<not> pj_dodged (heap (projectilePool g) p)"
  shows "combo (fold handleDodge rs g) = combo g + int (length rs)
       \<and> difficulty (fold handleDodge rs g) = difficulty g
       \<and> (rs \<noteq> [] \<longrightarrow> comboMultiplier (fold handleDodge rs g) = min (1 + (combo g + int (length rs)) div 10) 5)
       \<and> (\<forall>q. q \<notin> set rs \<longrightarrow> heap (projectilePool (fold handleDodge rs g)) q = heap (projectilePool g) q)"
  using assms
proof (induction rs arbitrary: g rule: rev_induct)
  case Nil
  show ?case by simp
next
  case (snoc r rs)
  let ?g = "fold handleDodge rs g"
  from snoc.prems have d: "distinct rs" and nd: "\<forall>p \<in> set rs. \<not> pj_dodged (heap (projectilePool g) p)"
    and r: "r \<notin> set rs" "\<not> pj_dodged (heap (projectilePool g) r)" by auto
  note ih = snoc.IH [OF d nd]
  from ih r have fresh: "\<not> pj_dodged (heap (projectilePool ?g) r)" by simp
  have f: "fold handleDodge (rs @ [r]) g = handleDodge r ?g" by simp
  show ?case unfolding f using ih
    by (auto simp: handleDodge_fresh [OF fresh] handleDodge_frame handleDodge_heap_other)
qed

lemma difficultyBonus_medium: "difficultyBonus ''medium'' = 1.1"
  by (simp add: difficultyBonus_def difficultyBonuses_def js_or_def)

section \<open>The pool\<close>

lemma acquire_reuse:
  assumes "pool s \<noteq> []"
  shows "acquire now x y tx ty sp s
     = (last (pool s),
        s\<lparr> heap := (heap s)(last (pool s) := reset now x y tx ty sp),
           pool := butlast (pool s), active := active s @ [last (pool s)] \<rparr>)"
  using assms by (simp add: acquire_def Let_def)

lemma acquire_grow:
  assumes "pool s = []"
  shows "acquire now x y tx ty sp s
     = (allocated s,
        s\<lparr> heap := (heap s)(allocated s := reset now x y tx ty sp),
           allocated := Suc (allocated s), active := active s @ [allocated s] \<rparr>)"
  using assms by (simp add: acquire_def new_Projectile_def Let_def)

lemma pool_inv_acquire:
  assumes "pool_inv s"
  shows "pool_inv (snd (acquire now x y tx ty sp s))"
proof (cases "pool s = []")
  case True
  with assms show ?thesis
    by (auto simp: acquire_grow pool_inv_def lessThan_Suc)
next
  case False
  then obtain ps r where ps: "pool s = ps @ [r]" by (metis rev_exhaust)
  with assms show ?thesis
    by (auto simp: acquire_reuse pool_inv_def)
qed

lemma pool_inv_release:
  assumes "pool_inv s"
  shows "pool_inv (release r s)"
proof (cases "r \<in> set (active s)")
  case True
  with assms have "distinct (active s)" and "r \<notin> set (pool s)" by (auto simp: pool_inv_def)
  with True assms show ?thesis
    by (auto simp: release_eq pool_inv_def)
next
  case False
  with assms show ?thesis by (simp add: release_eq)
qed

lemma pool_inv_clear: "pool_inv s \<Longrightarrow> pool_inv (clear s)"
proof (induction s rule: clear.induct)
  case (1 s)
  show ?case
  proof (cases "active s")
    case Nil
    with 1 show ?thesis by (subst clear.simps) simp
  next
    case (Cons r rs)
    with 1 show ?thesis by (subst clear.simps) (simp add: pool_inv_release)
  qed
qed

lemma pool_inv_step: "pool_inv s \<Longrightarrow> pool_inv (pool_step op s)"
  by (cases op) (simp_all add: pool_inv_acquire pool_inv_release pool_inv_clear, simp add: pool_inv_def)

lemma pool_inv_run: "pool_inv s \<Longrightarrow> pool_inv (pool_run ops s)"
  unfolding pool_run_def by (induction ops arbitrary: s) (simp_all add: pool_inv_step)

lemma initialize_fold:
  "fold (\<lambda>i s. let (projectile, s) = new_Projectile (clock i) s in s\<lparr> pool := pool s @ [projectile] \<rparr>) [0..<k]
      \<lparr> heap = h, allocated = 0, pool = [], active = [], initialSize = n \<rparr>
   = \<lparr> heap = (\<lambda>r. if r < k then reset (clock r) 0 0 0 0 0 else h r), allocated = k, pool = [0..<k],
       active = [], initialSize = n \<rparr>"
  (is "fold ?f [0..<k] ?s0 = ?t k")
proof (induction k)
  case 0
  show ?case by simp
next
  case (Suc k)
  have h: "(\<lambda>r. if r < k then reset (clock r) 0 0 0 0 0 else h r)(k := reset (clock k) 0 0 0 0 0)
      = (\<lambda>r. if r < Suc k then reset (clock r) 0 0 0 0 0 else h r)"
    by (auto simp: fun_eq_iff)
  have "fold ?f [0..<Suc k] ?s0 = ?f k (fold ?f [0..<k] ?s0)" by simp
  also have "\<dots> = ?f k (?t k)" by (simp only: Suc)
  also have "\<dots> = ?t (Suc k)" by (simp add: new_Projectile_def h)
  finally show ?case .
qed

lemma ProjectilePool_eq:
  "ProjectilePool clock n
   = \<lparr> heap = (\<lambda>r. if r < n then reset (clock r) 0 0 0 0 0 else reset 0 0 0 0 0 0),
       allocated = n, pool = [0..<n], active = [], initialSize = n \<rparr>"
  by (simp only: ProjectilePool_def initialize_def projectilePool.simps initialize_fold)

lemma pool_inv_ProjectilePool: "pool_inv (ProjectilePool clock n)"
  by (auto simp: ProjectilePool_eq pool_inv_def)

lemma release_twice: "distinct (active s) \<Longrightarrow> release r (release r s) = release r s"
  by (simp add: release_eq)

lemma pool_run_snoc: "pool_run (ops @ [op]) s = pool_step op (pool_run ops s)"
  by (simp add: pool_run_def)

lemma acquire_pool: "pool (snd (acquire now x y tx ty sp s)) = butlast (pool s)"
  by (cases "pool s = []") (simp_all add: acquire_grow acquire_reuse)

lemma acquire_allocated:
  "allocated (snd (acquire now x y tx ty sp s)) = (if pool s = [] then Suc (allocated s) else allocated s)"
  by (cases "pool s = []") (simp_all add: acquire_grow acquire_reuse)

lemma acquire_fst: "fst (acquire now x y tx ty sp s) = (if pool s = [] then allocated s else last (pool s))"
  by (cases "pool s = []") (simp_all add: acquire_grow acquire_reuse)

lemma acquire_active: "active (snd (acquire now x y tx ty sp s)) = active s @ [fst (acquire now x y tx ty sp s)]"
  by (cases "pool s = []") (simp_all add: acquire_grow acquire_reuse)

lemma acquire_heap:
  "heap (snd (acquire now x y tx ty sp s)) = (heap s)(fst (acquire now x y tx ty sp s) := reset now x y tx ty sp)"
  by (cases "pool s = []") (simp_all add: acquire_grow acquire_reuse)

lemma acquire_run:
  "pool (pool_run (acquire_ops args) (ProjectilePool clock n)) = [0..<n - length args]
   \<and> allocated (pool_run (acquire_ops args) (ProjectilePool clock n)) = max n (length args)"
proof (induction args rule: rev_induct)
  case Nil
  show ?case by (simp add: acquire_ops_def pool_run_def ProjectilePool_eq)
next
  case (snoc a args)
  obtain now x y tx ty sp where a: "a = (now, x, y, tx, ty, sp)" by (cases a) auto
  have r: "pool_run (acquire_ops (args @ [a])) (ProjectilePool clock n)
      = snd (acquire now x y tx ty sp (pool_run (acquire_ops args) (ProjectilePool clock n)))"
    by (simp add: acquire_ops_def pool_run_def a)
  have b: "butlast [0..<n - length args] = [0..<n - Suc (length args)]"
  proof (cases "n - length args")
    case 0
    thus ?thesis by simp
  next
    case (Suc m)
    moreover from Suc have "n - Suc (length args) = m" by arith
    ultimately show ?thesis by simp
  qed
  show ?case unfolding r acquire_pool acquire_allocated using snoc
    by (auto simp: b)
qed

lemma acquire_after_run:
  "fst (acquire now x y tx ty sp (pool_run (acquire_ops args) (ProjectilePool clock n)))
     = (if length args < n then n - 1 - length args else length args)"
  "allocated (snd (acquire now x y tx ty sp (pool_run (acquire_ops args) (ProjectilePool clock n))))
     = max n (Suc (length args))"
  unfolding acquire_fst acquire_allocated using acquire_run [of args clock n]
  by (auto simp: last_upt)

section \<open>The collision scan\<close>

lemma classify_grace: "now - pj_spawnTime projectile < 200 \<Longrightarrow> classify now pl projectile = Skipped"
  by (simp add: classify_def js_or_def Let_def)

lemma scan_grace:
  assumes "\<forall>i < length rs. rs ! i = r \<longrightarrow> now (k + i) - pj_spawnTime (heap (projectilePool g) r) < 200"
  shows "SolidHit r \<notin> set (fst (scan now pl k rs g)) \<and> Dodge r \<notin> set (fst (scan now pl k rs g))"
  using assms
proof (induction rs arbitrary: k g)
  case Nil
  show ?case by simp
next
  case (Cons p rs)
  have rest: "\<forall>i < length rs. rs ! i = r \<longrightarrow> now (Suc k + i) - pj_spawnTime (heap (projectilePool g') r) < 200"
    if "pj_spawnTime (heap (projectilePool g') r) = pj_spawnTime (heap (projectilePool g) r)" for g'
  proof (intro allI impI)
    fix i assume "i < length rs" "rs ! i = r"
    with Cons.prems [rule_format, of "Suc i"] that
    show "now (Suc k + i) - pj_spawnTime (heap (projectilePool g') r) < 200" by simp
  qed
  show ?case
  proof (cases "classify (now k) pl (heap (projectilePool g) p)")
    case Skipped
    thus ?thesis using Cons.IH [OF rest [of g]] by simp
  next
    case Solid
    have "p \<noteq> r"
    proof
      assume "p = r"
      with Cons.prems [rule_format, of 0] have "now k - pj_spawnTime (heap (projectilePool g) p) < 200" by simp
      with Solid show False by (simp add: classify_grace)
    qed
    with Solid show ?thesis by simp
  next
    case Gap
    have "p \<noteq> r"
    proof
      assume "p = r"
      with Cons.prems [rule_format, of 0] have "now k - pj_spawnTime (heap (projectilePool g) p) < 200" by simp
      with Gap show False by (simp add: classify_grace)
    qed
    with Gap Cons.IH [OF rest [of "handleDodge p g"], OF handleDodge_spawnTime]
    show ?thesis by (simp add: split_beta)
  qed
qed

lemma positions_Cons: "positions k (r # rs) = (k, r) # positions (Suc k) rs"
proof -
  have "[k..<k + length (r # rs)] = k # [Suc k..<Suc k + length rs]"
    by (subst upt_conv_Cons) simp_all
  thus ?thesis unfolding positions_def by simp
qed

lemma positions_snd: "(i, q) \<in> set (positions k rs) \<Longrightarrow> q \<in> set rs"
  unfolding positions_def by (auto dest: set_zip_rightD)

lemma handled_cong:
  "(\<And>p. p \<in> set ps \<Longrightarrow> cls p = cls' p) \<Longrightarrow> handled cls ps = handled cls' ps"
proof (induction ps)
  case Nil
  show ?case by (simp add: handled_def)
next
  case (Cons p ps)
  hence "handled cls ps = handled cls' ps" and "cls p = cls' p" by simp_all
  thus ?case by (simp add: handled_def)
qed

lemma scan_handled:
  assumes "distinct rs"
  shows "fst (scan now pl k rs g)
     = handled (\<lambda>(i, r). classify (now i) pl (heap (projectilePool g) r)) (positions k rs)"
  using assms
proof (induction rs arbitrary: k g)
  case Nil
  show ?case by (simp add: handled_def positions_def)
next
  case (Cons p rs)
  let ?cls = "\<lambda>g. \<lambda>(i, r). classify (now i) pl (heap (projectilePool g) r)"
  from Cons.prems have d: "distinct rs" and p: "p \<notin> set rs" by simp_all
  show ?case
  proof (cases "classify (now k) pl (heap (projectilePool g) p)")
    case Skipped
    thus ?thesis using Cons.IH [OF d, of "Suc k" g] by (simp add: positions_Cons handled_def)
  next
    case Solid
    thus ?thesis by (simp add: positions_Cons handled_def)
  next
    case Gap
    have "handled (?cls (handleDodge p g)) (positions (Suc k) rs) = handled (?cls g) (positions (Suc k) rs)"
    proof (rule handled_cong)
      fix q assume q: "q \<in> set (positions (Suc k) rs)"
      obtain i r where ir: "q = (i, r)" by (cases q)
      with q have "r \<in> set rs" by (auto dest: positions_snd)
      with p have "r \<noteq> p" by auto
      thus "?cls (handleDodge p g) q = ?cls g q" by (simp add: ir handleDodge_heap_other)
    qed
    with Gap Cons.IH [OF d, of "Suc k" "handleDodge p g"] show ?thesis
      by (simp add: positions_Cons handled_def split_beta)
  qed
qed

lemma handled_one_hit:
  "length (filter (\<lambda>c. case c of SolidHit _ \<Rightarrow> True | Dodge _ \<Rightarrow> False) (handled cls ps)) \<le> 1"
proof -
  have a: "filter (\<lambda>c. case c of SolidHit _ \<Rightarrow> True | Dodge _ \<Rightarrow> False) (map (\<lambda>(i, r). Dodge r) xs) = []" for xs :: "(nat \<times> nat) list"
    by (induction xs) auto
  have "length (filter (\<lambda>c. case c of SolidHit _ \<Rightarrow> True | Dodge _ \<Rightarrow> False)
           (map (\<lambda>(i, r). SolidHit r) (take 1 ys))) \<le> 1" for ys :: "(nat \<times> nat) list"
    by (rule order_trans [OF length_filter_le]) simp
  thus ?thesis by (simp add: handled_def a)
qed

lemma add_cell_objects_distinct: "distinct nearby \<Longrightarrow> distinct (add_cell_objects object objs nearby)"
  by (induction objs arbitrary: nearby) simp_all

lemma fold_invariant:
  assumes "P acc" and "\<And>x acc. P acc \<Longrightarrow> P (f x acc)"
  shows "P (fold f xs acc)"
  using assms(1) by (induction xs arbitrary: acc) (simp_all add: assms(2))

lemma getNearbyObjects_distinct: "distinct (getNearbyObjects ph object bounds)"
proof -
  have inner: "distinct (fold (\<lambda>cellY nearby. add_cell_objects object (cell cellY) nearby) ys nearby)"
    if "distinct nearby" for cell :: "int \<Rightarrow> obj list" and ys nearby
    using that by (rule fold_invariant [where P = distinct]) (rule add_cell_objects_distinct)
  have outer: "distinct (fold (\<lambda>cellX nearby. fold (\<lambda>cellY nearby. add_cell_objects object (cell cellX cellY) nearby) ys nearby) xs [])"
    for cell :: "int \<Rightarrow> int \<Rightarrow> obj list" and xs ys
    by (rule fold_invariant [where P = distinct]) (simp, rule inner)
  show ?thesis
    unfolding getNearbyObjects_def Let_def split_beta by (rule outer)
qed


lemma active_refs_distinct:
  "distinct nearby \<Longrightarrow>
   distinct (concat (map (\<lambda>p. case p of ThePlayer \<Rightarrow> [] | AProjectile r \<Rightarrow> (if f r then [r] else [])) nearby))"
proof (induction nearby)
  case Nil
  show ?case by simp
next
  case (Cons p ps)
  have mem: "r \<in> set (concat (map (\<lambda>p. case p of ThePlayer \<Rightarrow> [] | AProjectile r \<Rightarrow> (if f r then [r] else [])) ps))
      \<Longrightarrow> AProjectile r \<in> set ps" for r
    by (auto split: obj.splits if_splits)
  from Cons show ?case by (cases p) (auto dest: mem)
qed

lemma projectilesToCheck_distinct:
  "distinct (active (projectilePool g)) \<Longrightarrow> distinct (projectilesToCheck pl g)"
  unfolding projectilesToCheck_def Let_def
  by (simp add: active_refs_distinct getNearbyObjects_distinct)


lemma scan_runs_calls: "snd (scan now pl k rs g) = fold run_call (fst (scan now pl k rs g)) g"
proof (induction rs arbitrary: k g)
  case Nil
  show ?case by simp
next
  case (Cons p rs)
  show ?case
  proof (cases "classify (now k) pl (heap (projectilePool g) p)")
    case Skipped
    thus ?thesis using Cons.IH [of "Suc k" g] by simp
  next
    case Solid
    thus ?thesis by simp
  next
    case Gap
    thus ?thesis using Cons.IH [of "Suc k" "handleDodge p g"] by (simp add: split_beta)
  qed
qed



section \<open>The example session\<close>

lemma clear_no_active: "active s = [] \<Longrightarrow> clear s = s"
  by (subst clear.simps) simp

lemma crowded_fields:
  "player (crowded n) = Some (Player 400 640)"
  "physics (crowded n) = Physics"
  "combo (crowded n) = 0"
  "difficulty (crowded n) = ''medium''"
  "projectilePool (crowded n)
     = pool_run (replicate n (Acquire 0 430 640 400 640 200)) (ProjectilePool (\<lambda>_. 0) 50)"
  by (simp_all add: crowded_def startGame_def GameEngine_def GAME_WIDTH_def GAME_HEIGHT_def Let_def
      clear_no_active ProjectilePool_eq)

lemma crowded_distinct: "distinct (active (projectilePool (crowded n)))"
  using pool_inv_run [OF pool_inv_ProjectilePool, of "replicate n (Acquire 0 430 640 400 640 200)" "\<lambda>_. 0" 50]
  by (simp add: crowded_fields pool_inv_def)

lemma replicate_run:
  "pool_run (replicate (Suc k) op) s = pool_step op (pool_run (replicate k op) s)"
  using pool_run_snoc [of "replicate k op" op s] by (simp add: replicate_append_same)

lemma crowded_pool:
  "length (active (projectilePool (crowded n))) = n
   \<and> (\<forall>r \<in> set (active (projectilePool (crowded n))).
         heap (projectilePool (crowded n)) r = reset 0 430 640 400 640 200)
   \<and> (\<forall>r. pj_spawnTime (heap (projectilePool (crowded n)) r) = 0
         \<and> \<not> pj_dodged (heap (projectilePool (crowded n)) r))"
proof (induction n)
  case 0
  show ?case by (simp add: crowded_fields pool_run_def ProjectilePool_eq reset_def)
next
  case (Suc n)
  have step: "projectilePool (crowded (Suc n))
      = snd (acquire 0 430 640 400 640 200 (projectilePool (crowded n)))"
    by (simp only: crowded_fields replicate_run pool_step.simps)
  show ?case unfolding step acquire_active acquire_heap using Suc
    by (auto simp: reset_def)
qed



section \<open>The claims about the pool, the scoring and the scan\<close>

text \<open>
  C7. After any sequence of pool operations on a freshly constructed pool (acquire,
  release of any reference, clear, writes to projectile fields), with \<open>s\<close> the pool
  reached: the free list and the active list together hold every created projectile
  exactly once and nothing else. \<open>acquire\<close> on \<open>s\<close> returns the last element of the free
  list, or a newly created projectile when the free list is empty, resets it and appends
  it to the active list, where it was not before. \<open>release\<close> of a projectile in the
  active list removes it from there, clears its \<open>active\<close> flag and appends it to the free
  list; \<open>release\<close> of any other reference changes nothing, and a second \<open>release\<close> of
  the same projectile changes nothing. After \<open>k\<close> acquires on a fresh pool of size \<open>n\<close>
  the next acquire reuses projectile \<open>n - 1 - k\<close> while \<open>k < n\<close> and creates projectile
  \<open>k\<close> otherwise; for \<open>n = 50\<close>, after 50 acquires the free list is empty and the 51st
  acquire creates projectile number 50, the 51st object.
\<close>

theorem ProjectilePool_collections:
  fixes ops :: "pool_op list" and clock :: "nat \<Rightarrow> real" and n :: nat
    and now x y targetX targetY speed :: real
    and args :: "(real \<times> real \<times> real \<times> real \<times> real \<times> real) list"
  defines "s \<equiv> pool_run ops (ProjectilePool clock n)"
  defines "a \<equiv> acquire now x y targetX targetY speed s"
  defines "fresh \<equiv> pool_run (acquire_ops args) (ProjectilePool clock n)"
  defines "full \<equiv> pool_run (replicate 50 (Acquire now x y targetX targetY speed)) (ProjectilePool clock 50)"
  shows "distinct (pool s @ active s) \<and> set (pool s @ active s) = {..<allocated s}
    \<and> fst a = (if pool s = [] then allocated s else last (pool s))
    \<and> allocated (snd a) = (if pool s = [] then Suc (allocated s) else allocated s)
    \<and> pool (snd a) = butlast (pool s)
    \<and> active (snd a) = active s @ [fst a]
    \<and> heap (snd a) = (heap s)(fst a := reset now x y targetX targetY speed)
    \<and> fst a \<notin> set (active s)
    \<and> release r s = (if r \<in> set (active s)
                       then s\<lparr> active := remove1 r (active s),
                               heap := (heap s)(r := (heap s r)\<lparr> pj_active := False \<rparr>),
                               pool := pool s @ [r] \<rparr>
                       else s)
    \<and> r \<notin> set (active (release r s))
    \<and> release r (release r s) = release r s
    \<and> fst (acquire now x y targetX targetY speed fresh)
         = (if length args < n then n - 1 - length args else length args)
    \<and> allocated (snd (acquire now x y targetX targetY speed fresh)) = max n (Suc (length args))
    \<and> pool full = [] \<and> allocated full = 50
    \<and> fst (acquire now x y targetX targetY speed full) = 50
    \<and> allocated (snd (acquire now x y targetX targetY speed full)) = 51"
proof -
  have inv: "pool_inv s" unfolding s_def by (rule pool_inv_run [OF pool_inv_ProjectilePool])
  hence d: "distinct (pool s @ active s)" and e: "set (pool s @ active s) = {..<allocated s}"
    by (simp_all add: pool_inv_def)
  have notin: "fst a \<notin> set (active s)"
  proof (cases "pool s = []")
    case True
    thus ?thesis using e by (auto simp: a_def acquire_fst)
  next
    case False
    hence "last (pool s) \<in> set (pool s)" by simp
    moreover have "set (pool s) \<inter> set (active s) = {}" using d by simp
    ultimately have "last (pool s) \<notin> set (active s)" by blast
    thus ?thesis using False by (simp add: a_def acquire_fst)
  qed
  have da: "distinct (active s)" using d by simp
  have gone: "r \<notin> set (active (release r s))" using da by (simp add: release_eq)
  have full_eq: "full = pool_run (acquire_ops (replicate 50 (now, x, y, targetX, targetY, speed))) (ProjectilePool clock 50)"
    by (simp add: full_def acquire_ops_def)
  have f1: "pool full = []" "allocated full = 50"
    unfolding full_eq using acquire_run [of "replicate 50 (now, x, y, targetX, targetY, speed)" clock 50] by simp_all
  have f2: "fst (acquire now x y targetX targetY speed full) = 50"
    "allocated (snd (acquire now x y targetX targetY speed full)) = 51"
    unfolding full_eq by (simp_all add: acquire_after_run)
  show ?thesis
    unfolding a_def fresh_def
    by (intro conjI d e acquire_fst acquire_allocated acquire_pool acquire_active acquire_heap
        notin [unfolded a_def] release_eq gone release_twice [OF da] acquire_after_run f1 f2)
qed

text \<open>
  C5. After a call of \<open>handleDodge\<close> on a projectile not yet dodged (the only kind the
  scan passes, and the only kind that changes the combo), or in any state in which the
  equation held before the call, \<open>comboMultiplier = min(floor(combo / 10) + 1, 5)\<close>. The
  combo ranges over all integers, the interval \<open>[0, 1000]\<close> included.
\<close>

theorem handleDodge_comboMultiplier:
  assumes "\<not> pj_dodged (heap (projectilePool g) r)
           \<or> comboMultiplier g = min (\<lfloor>real_of_int (combo g) / 10\<rfloor> + 1) 5"
  shows "comboMultiplier (handleDodge r g)
           = min (\<lfloor>real_of_int (combo (handleDodge r g)) / 10\<rfloor> + 1) 5"
proof (cases "pj_dodged (heap (projectilePool g) r)")
  case True
  with assms show ?thesis by (simp add: handleDodge_dodged_id)
next
  case False
  from False have c: "combo (handleDodge r g) = combo g + 1"
    and m: "comboMultiplier (handleDodge r g) = min (1 + (combo g + 1) div 10) 5"
    by (rule handleDodge_fresh)+
  show ?thesis unfolding c m floor_div10 by simp
qed

theorem handleDodge_comboMultiplier_witness:
  "\<not> pj_dodged (heap (projectilePool (crowded 1)) 49)
   \<and> comboMultiplier (handleDodge 49 (crowded 1))
       = min (\<lfloor>real_of_int (combo (handleDodge 49 (crowded 1))) / 10\<rfloor> + 1) 5"
proof -
  have h: "\<not> pj_dodged (heap (projectilePool (crowded 1)) 49)" using crowded_pool [of 1] by simp
  hence "\<not> pj_dodged (heap (projectilePool (crowded 1)) 49)
         \<or> comboMultiplier (crowded 1) = min (\<lfloor>real_of_int (combo (crowded 1)) / 10\<rfloor> + 1) 5" by simp
  from handleDodge_comboMultiplier [OF this] h show ?thesis by simp
qed

text \<open>
  C6. A dodge of a projectile not yet dodged adds
  \<open>floor(10 \<times> comboMultiplier \<times> difficultyBonus)\<close> to the score, the multiplier being the
  one of the combo after its increment. From combo \<open>0\<close> on \<open>medium\<close>, after ten dodges of
  ten different projectiles the multiplier is \<open>2\<close>, and the dodge of an eleventh adds
  \<open>22\<close>.
\<close>

theorem dodge_points:
  "(\<not> pj_dodged (heap (projectilePool g) r) \<longrightarrow>
      score (handleDodge r g) = score g
        + \<lfloor>10 * real_of_int (min (\<lfloor>real_of_int (combo g + 1) / 10\<rfloor> + 1) 5) * difficultyBonus (difficulty g)\<rfloor>)
   \<and> (combo g0 = 0 \<and> difficulty g0 = ''medium'' \<and> length rs = 10 \<and> distinct (rs @ [q])
        \<and> (\<forall>p \<in> set (rs @ [q]). \<not> pj_dodged (heap (projectilePool g0) p)) \<longrightarrow>
      comboMultiplier (fold handleDodge rs g0) = 2
      \<and> score (handleDodge q (fold handleDodge rs g0)) = score (fold handleDodge rs g0) + 22)"
proof (intro conjI impI)
  assume fresh: "\<not> pj_dodged (heap (projectilePool g) r)"
  have e: "min (\<lfloor>real_of_int (combo g + 1) / 10\<rfloor> + 1) 5 = min (1 + (combo g + 1) div 10) 5"
    unfolding floor_div10 by simp
  show "score (handleDodge r g) = score g
        + \<lfloor>10 * real_of_int (min (\<lfloor>real_of_int (combo g + 1) / 10\<rfloor> + 1) 5) * difficultyBonus (difficulty g)\<rfloor>"
    unfolding e by (rule handleDodge_fresh(3) [OF fresh])
next
  assume h: "combo g0 = 0 \<and> difficulty g0 = ''medium'' \<and> length rs = 10 \<and> distinct (rs @ [q])
        \<and> (\<forall>p \<in> set (rs @ [q]). \<not> pj_dodged (heap (projectilePool g0) p))"
  let ?g = "fold handleDodge rs g0"
  from h have d: "distinct rs" and nd: "\<forall>p \<in> set rs. \<not> pj_dodged (heap (projectilePool g0) p)"
    and q: "q \<notin> set rs" "\<not> pj_dodged (heap (projectilePool g0) q)" and ne: "rs \<noteq> []" by auto
  note eff = dodges_effect [OF d nd]
  from eff h have c: "combo ?g = 10" and df: "difficulty ?g = ''medium''" by simp_all
  from eff ne h show m: "comboMultiplier ?g = 2" by simp
  from eff q have fresh: "\<not> pj_dodged (heap (projectilePool ?g) q)" by simp
  have "\<lfloor>10 * real_of_int (min (1 + (10 + 1) div 10) 5) * (1.1::real)\<rfloor> = 22" by simp
  thus "score (handleDodge q ?g) = score ?g + 22"
    by (simp add: handleDodge_fresh(3) [OF fresh] c df difficultyBonus_medium)
qed

theorem dodge_points_witness:
  "\<not> pj_dodged (heap (projectilePool (crowded 11)) 49)
   \<and> score (handleDodge 49 (crowded 11)) = score (crowded 11) + 11
   \<and> combo (crowded 11) = 0 \<and> difficulty (crowded 11) = ''medium''
   \<and> comboMultiplier (fold handleDodge [39, 40, 41, 42, 43, 44, 45, 46, 47, 48] (crowded 11)) = 2
   \<and> score (handleDodge 49 (fold handleDodge [39, 40, 41, 42, 43, 44, 45, 46, 47, 48] (crowded 11)))
       = score (fold handleDodge [39, 40, 41, 42, 43, 44, 45, 46, 47, 48] (crowded 11)) + 22"
proof -
  have nd: "\<not> pj_dodged (heap (projectilePool (crowded 11)) r)" for r using crowded_pool [of 11] by simp
  have c: "combo (crowded 11) = 0" and df: "difficulty (crowded 11) = ''medium''"
    by (rule crowded_fields)+
  have hyp: "combo (crowded 11) = 0 \<and> difficulty (crowded 11) = ''medium''
      \<and> length [39, 40, 41, 42, 43, 44, 45, 46, 47, 48 :: nat] = 10
      \<and> distinct ([39, 40, 41, 42, 43, 44, 45, 46, 47, 48] @ [49 :: nat])
      \<and> (\<forall>p \<in> set ([39, 40, 41, 42, 43, 44, 45, 46, 47, 48] @ [49]). \<not> pj_dodged (heap (projectilePool (crowded 11)) p))"
    using nd by (simp add: c df)
  have one: "\<lfloor>10 * real_of_int (min (\<lfloor>real_of_int (0 + 1) / 10\<rfloor> + 1) 5) * (1.1::real)\<rfloor> = 11" by simp
  from dodge_points [of "crowded 11" 49 "crowded 11" "[39, 40, 41, 42, 43, 44, 45, 46, 47, 48]" 49] hyp nd [of 49]
  show ?thesis by (simp add: c df difficultyBonus_medium one)
qed

text \<open>
  C3. In a scan, \<open>now i\<close> being the clock sample read when position \<open>i\<close> of the scanned
  array is examined: a projectile \<open>r\<close> for which every sample read while examining it is
  less than 200 ms after its spawn time gets neither the solid-hit handler nor the dodge
  handler, wherever it is.
\<close>

theorem checkCollisions_grace:
  assumes "player g = Some pl"
    and "\<forall>i < length (projectilesToCheck pl g). projectilesToCheck pl g ! i = r \<longrightarrow>
           now i - pj_spawnTime (heap (projectilePool g) r) < 200"
  shows "SolidHit r \<notin> set (fst (checkCollisions now g)) \<and> Dodge r \<notin> set (fst (checkCollisions now g))"
  using scan_grace [of "projectilesToCheck pl g" r now 0 g pl] assms
  by (simp add: checkCollisions_def)

theorem checkCollisions_grace_witness:
  "player (crowded 2) = Some (Player 400 640)
   \<and> (100::real) - pj_spawnTime (heap (projectilePool (crowded 2)) 49) < 200
   \<and> SolidHit 49 \<notin> set (fst (checkCollisions (\<lambda>_. 100) (crowded 2)))
   \<and> Dodge 49 \<notin> set (fst (checkCollisions (\<lambda>_. 100) (crowded 2)))"
proof -
  have p: "player (crowded 2) = Some (Player 400 640)" by (rule crowded_fields)
  have t: "(100::real) - pj_spawnTime (heap (projectilePool (crowded 2)) 49) < 200"
    using crowded_pool [of 2] by simp
  hence "\<forall>i < length (projectilesToCheck (Player 400 640) (crowded 2)).
      projectilesToCheck (Player 400 640) (crowded 2) ! i = 49 \<longrightarrow>
        (\<lambda>_. 100) i - pj_spawnTime (heap (projectilePool (crowded 2)) 49) < 200" by simp
  from checkCollisions_grace [OF p this] p t show ?thesis by simp
qed

text \<open>
  C4. With a player present and no projectile twice in the active list, the handler calls
  of one scan are: a dodge for every position classified as a gap before the first
  position classified solid, in scan order, then the hit for that first solid position
  if there is one, and nothing for any later position. So at most one call is a solid
  hit. The engine after the scan is the engine before it with exactly these calls run in
  order.
\<close>

theorem checkCollisions_one_solid:
  assumes "player g = Some pl" and "distinct (active (projectilePool g))"
  shows "fst (checkCollisions now g)
           = handled (\<lambda>(i, r). classify (now i) pl (heap (projectilePool g) r))
               (positions 0 (projectilesToCheck pl g))
       \<and> length (filter (\<lambda>c. case c of SolidHit _ \<Rightarrow> True | Dodge _ \<Rightarrow> False)
                  (fst (checkCollisions now g))) \<le> 1
       \<and> snd (checkCollisions now g) = fold run_call (fst (checkCollisions now g)) g"
proof -
  have "fst (checkCollisions now g)
           = handled (\<lambda>(i, r). classify (now i) pl (heap (projectilePool g) r))
               (positions 0 (projectilesToCheck pl g))"
    using assms by (simp add: checkCollisions_def scan_handled projectilesToCheck_distinct)
  moreover have "snd (checkCollisions now g) = fold run_call (fst (checkCollisions now g)) g"
    using assms(1) by (simp add: checkCollisions_def scan_runs_calls)
  ultimately show ?thesis
    using handled_one_hit [of "\<lambda>(i, r). classify (now i) pl (heap (projectilePool g) r)"
      "positions 0 (projectilesToCheck pl g)"] by simp
qed

theorem checkCollisions_one_solid_witness:
  "player (crowded 2) = Some (Player 400 640) \<and> distinct (active (projectilePool (crowded 2)))
   \<and> fst (checkCollisions (\<lambda>_. 1000) (crowded 2))
       = handled (\<lambda>(i, r). classify 1000 (Player 400 640) (heap (projectilePool (crowded 2)) r))
           (positions 0 (projectilesToCheck (Player 400 640) (crowded 2)))
   \<and> length (filter (\<lambda>c. case c of SolidHit _ \<Rightarrow> True | Dodge _ \<Rightarrow> False)
              (fst (checkCollisions (\<lambda>_. 1000) (crowded 2)))) \<le> 1
   \<and> snd (checkCollisions (\<lambda>_. 1000) (crowded 2))
       = fold run_call (fst (checkCollisions (\<lambda>_. 1000) (crowded 2))) (crowded 2)"
proof -
  have p: "player (crowded 2) = Some (Player 400 640)" by (rule crowded_fields)
  note t = checkCollisions_one_solid [OF p crowded_distinct, of "\<lambda>_. 1000"]
  show ?thesis
    by (intro conjI) (rule p, rule crowded_distinct, rule conjunct1 [OF t],
        rule conjunct1 [OF conjunct2 [OF t]], rule conjunct2 [OF conjunct2 [OF t]])
qed


end
